theory Spec2Isabelle
  imports Complex_Main
begin

section \<open>Python values\<close>

text \<open>
  A Python \<open>str\<close> is a sequence of Unicode code points, and \<open>len\<close> counts code points.
  A code point is a natural number; a string literal of the source is written
  \<open>str ''...''\<close>. Floats are modelled as reals: the claims depend only on comparisons.
\<close>

type_synonym pychar = nat
type_synonym pystr = "pychar list"

definition str :: "string \<Rightarrow> pystr" where
  "str s = map of_char s"

datatype error = ValueError | CollaboratorFailure

section \<open>The seeded generator (\<open>random.Random\<close>)\<close>

text \<open>
  \<open>random.Random\<close> is a library class. Its state is an abstract type \<open>'g\<close>; its three
  operations used by the repository are fields of \<open>rng_ops\<close>: seeding from an integer,
  \<open>random()\<close>, and the internal \<open>_randbelow(n)\<close> on which \<open>choice\<close> is built. Each draw
  returns the value and the next state.
\<close>

record 'g rng_ops =
  rng_seed :: "int \<Rightarrow> 'g"
  rng_random :: "'g \<Rightarrow> real \<times> 'g"
  rng_randbelow :: "'g \<Rightarrow> nat \<Rightarrow> nat \<times> 'g"

text \<open>
  The documented contract of the library: \<open>random()\<close> lies in \<open>[0.0, 1.0)\<close> and
  \<open>_randbelow(n)\<close> lies in \<open>[0, n)\<close>.
\<close>

definition rng_ok :: "'g rng_ops \<Rightarrow> bool" where
  "rng_ok G \<longleftrightarrow>
     (\<forall>g. 0 \<le> fst (rng_random G g) \<and> fst (rng_random G g) < 1) \<and>
     (\<forall>g n. 0 < n \<longrightarrow> fst (rng_randbelow G g n) < n)"

text \<open>
  \<open>random.Random(seed)\<close>: an integer seed fixes the state; \<open>None\<close> takes the state from
  the operating system's entropy, which is the argument \<open>entropy\<close>.
\<close>

definition Random_init :: "'g rng_ops \<Rightarrow> int option \<Rightarrow> 'g \<Rightarrow> 'g" where
  "Random_init G seed entropy = (case seed of Some s \<Rightarrow> rng_seed G s | None \<Rightarrow> entropy)"

text \<open>
  \<open>choice(seq)\<close> is \<open>seq[self._randbelow(len(seq))]\<close>. Every call of the repository passes
  a non-empty literal list or a list checked to be non-empty, so the \<open>IndexError\<close> of an
  empty sequence is not a branch here.
\<close>

definition choice :: "'g rng_ops \<Rightarrow> 'g \<Rightarrow> 'a list \<Rightarrow> 'a \<times> 'g" where
  "choice G g xs = (let (k, g') = rng_randbelow G g (length xs) in (xs ! k, g'))"

text \<open>A small concrete generator (a linear congruential one), to run the model on inputs.\<close>

definition lcg_next :: "nat \<Rightarrow> nat" where
  "lcg_next g = (1103515245 * g + 12345) mod 2147483648"

definition lcg :: "nat rng_ops" where
  "lcg = \<lparr> rng_seed = (\<lambda>s. nat \<bar>s\<bar>),
           rng_random = (\<lambda>g. (real (g mod 1000) / 1000, lcg_next g)),
           rng_randbelow = (\<lambda>g n. (g mod n, lcg_next g)) \<rparr>"

section \<open>Unicode space manipulation (\<open>space_manipulator.py\<close>)\<close>

definition SPACE_VARIANTS :: "(pystr \<times> pystr) list" where
  "SPACE_VARIANTS =
    [(str ''standard'', [0x0020]),
     (str ''non_breaking'', [0x00A0]),
     (str ''en_space'', [0x2002]),
     (str ''em_space'', [0x2003]),
     (str ''thin_space'', [0x2009]),
     (str ''hair_space'', [0x200A]),
     (str ''zero_width'', [0x200B]),
     (str ''figure_space'', [0x2007]),
     (str ''narrow_no_break'', [0x202F])]"

record 'g SpaceManipulator =
  sm_intensity :: real
  sm_random :: 'g
  sm_variants :: "pystr list"

definition SpaceManipulator_init ::
  "'g rng_ops \<Rightarrow> real \<Rightarrow> int option \<Rightarrow> 'g \<Rightarrow> error + 'g SpaceManipulator" where
  "SpaceManipulator_init G intensity seed entropy =
     (if \<not> (0 \<le> intensity \<and> intensity \<le> 1) then Inl ValueError
      else Inr \<lparr> sm_intensity = intensity,
                 sm_random = Random_init G seed entropy,
                 sm_variants = map snd (filter (\<lambda>(k, v). k \<noteq> str ''standard'') SPACE_VARIANTS) \<rparr>)"

definition standard_space :: pystr where
  "standard_space = the (map_of SPACE_VARIANTS (str ''standard''))"

text \<open>The three boundary tests of the loop body, at index \<open>i\<close> of \<open>text\<close>.\<close>

definition is_boundary :: "pystr \<Rightarrow> nat \<Rightarrow> bool" where
  "is_boundary text i =
     (let is_start = (i = 0);
          is_end = (int i = int (length text) - 1);
          is_line_boundary = ((i > 0 \<and> text ! (i - 1) = 0x0A) \<or>
                              (int i < int (length text) - 1 \<and> text ! (i + 1) = 0x0A))
      in is_start \<or> is_end \<or> is_line_boundary)"

text \<open>
  The body of the loop of \<open>replace_spaces\<close> for one \<open>(i, char)\<close>: the string appended to
  \<open>result\<close> and the generator state afterwards.
\<close>

definition replace_char ::
  "'g rng_ops \<Rightarrow> real \<Rightarrow> pystr list \<Rightarrow> bool \<Rightarrow> pystr \<Rightarrow> nat \<Rightarrow> pychar \<Rightarrow> 'g \<Rightarrow> pystr \<times> 'g" where
  "replace_char G intensity variants preserve_boundaries text i char g =
     (if [char] = standard_space then
        (if preserve_boundaries \<and> is_boundary text i then ([char], g)
         else (let (r, g1) = rng_random G g in
               if r < intensity then choice G g1 variants
               else ([char], g1)))
      else ([char], g))"

fun replace_loop ::
  "'g rng_ops \<Rightarrow> real \<Rightarrow> pystr list \<Rightarrow> bool \<Rightarrow> pystr \<Rightarrow> (nat \<times> pychar) list \<Rightarrow> 'g
     \<Rightarrow> pystr list \<times> 'g" where
  "replace_loop G intensity variants pb text [] g = ([], g)"
| "replace_loop G intensity variants pb text ((i, char) # rest) g =
     (let (piece, g1) = replace_char G intensity variants pb text i char g;
          (result, g2) = replace_loop G intensity variants pb text rest g1
      in (piece # result, g2))"

definition replace_spaces ::
  "'g rng_ops \<Rightarrow> 'g SpaceManipulator \<Rightarrow> pystr \<Rightarrow> bool \<Rightarrow> pystr \<times> 'g SpaceManipulator" where
  "replace_spaces G self text preserve_boundaries =
     (if text = [] \<or> sm_intensity self = 0 then (text, self)
      else (let (result, g') =
                  replace_loop G (sm_intensity self) (sm_variants self) preserve_boundaries
                    text (enumerate 0 text) (sm_random self)
            in (concat result, self\<lparr>sm_random := g'\<rparr>)))"

text \<open>
  One run of the codec as the tests make it: a fresh \<open>SpaceManipulator(intensity, seed)\<close>,
  then one call of \<open>replace_spaces(text, preserve_boundaries)\<close>.
\<close>

definition codec_run ::
  "'g rng_ops \<Rightarrow> real \<Rightarrow> int option \<Rightarrow> 'g \<Rightarrow> pystr \<Rightarrow> bool \<Rightarrow> error + pystr" where
  "codec_run G intensity seed entropy text preserve_boundaries =
     (case SpaceManipulator_init G intensity seed entropy of
        Inl e \<Rightarrow> Inl e
      | Inr self \<Rightarrow> Inr (fst (replace_spaces G self text preserve_boundaries)))"

text \<open>
  For stating where draws are consumed: the positions of \<open>text\<close> that hold an ASCII space
  and are neither the first nor the last position nor next to a newline, and the generator
  state after \<open>n\<close> such positions were visited (one \<open>random()\<close> each, followed by one
  \<open>choice\<close> when the draw is below the intensity).
\<close>

definition candidate_positions :: "pystr \<Rightarrow> nat list" where
  "candidate_positions text =
     filter (\<lambda>i. text ! i = 0x20 \<and>
                 \<not> (i = 0 \<or> i + 1 = length text \<or> (0 < i \<and> text ! (i - 1) = 0x0A) \<or>
                    (i + 1 < length text \<and> text ! (i + 1) = 0x0A)))
       [0..<length text]"

fun consume_draws :: "'g rng_ops \<Rightarrow> real \<Rightarrow> pystr list \<Rightarrow> nat \<Rightarrow> 'g \<Rightarrow> 'g" where
  "consume_draws G intensity variants 0 g = g"
| "consume_draws G intensity variants (Suc n) g =
     (let (r, g1) = rng_random G g
      in consume_draws G intensity variants n
           (if r < intensity then snd (choice G g1 variants) else g1))"

text \<open>
  \<open>analyze_distribution\<close> counts, for each name of \<open>SPACE_VARIANTS\<close>, the characters of the
  text equal to its character; \<open>get_replacement_stats\<close> compares two texts. Of its
  dictionary the pipeline reads \<open>spaces_replaced\<close> and \<open>replacement_rate\<close>.
\<close>

definition analyze_distribution :: "pystr \<Rightarrow> (pystr \<times> int) list" where
  "analyze_distribution text =
     map (\<lambda>(name, ch). (name, int (length (filter (\<lambda>c. [c] = ch) text)))) SPACE_VARIANTS"

definition get_replacement_stats :: "pystr \<Rightarrow> pystr \<Rightarrow> int \<times> real" where
  "get_replacement_stats original_text modified =
     (let orig_dist = analyze_distribution original_text;
          mod_dist = analyze_distribution modified;
          total_original = sum_list (map snd orig_dist);
          total_replaced = total_original -
             (case map_of mod_dist (str ''standard'') of Some n \<Rightarrow> n | None \<Rightarrow> 0)
      in (total_replaced,
          if total_original > 0 then real_of_int total_replaced / real_of_int total_original * 100
          else 0))"

section \<open>Whitespace (\<open>str.isspace\<close>, \<open>str.strip\<close>, \<open>str.split\<close>, \<open>str.join\<close>)\<close>

text \<open>
  The code points for which \<open>str.isspace\<close> holds, which are the separators of
  \<open>str.split()\<close> and what \<open>str.strip()\<close> removes. The zero-width space \<open>U+200B\<close> is not
  among them.
\<close>

definition isspace :: "pychar \<Rightarrow> bool" where
  "isspace c \<longleftrightarrow>
     (0x09 \<le> c \<and> c \<le> 0x0D) \<or> (0x1C \<le> c \<and> c \<le> 0x20) \<or> c = 0x85 \<or> c = 0xA0 \<or>
     c = 0x1680 \<or> (0x2000 \<le> c \<and> c \<le> 0x200A) \<or> c = 0x2028 \<or> c = 0x2029 \<or>
     c = 0x202F \<or> c = 0x205F \<or> c = 0x3000"

definition strip :: "pystr \<Rightarrow> pystr" where
  "strip s = rev (dropWhile isspace (rev (dropWhile isspace s)))"

section \<open>The pipeline (\<open>pipeline.py\<close>)\<close>

text \<open>
  The collaborators of the pipeline that rest on spaCy, WordNet, sentence-transformers
  and textstat are arguments of the model, so every statement holds for all of them:
  \<^item> \<open>col_parser_error\<close>: the outcome of \<open>NLPParser()\<close>, \<open>None\<close> when the model loads;
  \<^item> \<open>col_entropy k\<close>: the state a generator built with \<open>seed=None\<close> gets, for the
    \<open>k\<close>-th generator the constructor builds;
  \<^item> \<open>col_restructure\<close>: \<open>SyntaxRestructurer.restructure\<close> on the restructurer's generator;
  \<^item> \<open>col_replace_semantics\<close>: \<open>SemanticReplacer.replace_semantics\<close> for a formality, on
    the replacer's generator;
  \<^item> \<open>col_similarity\<close>: \<open>SemanticSimilarityChecker.calculate_similarity\<close>;
  \<^item> \<open>col_fk_grade\<close>: the \<open>flesch_kincaid_grade\<close> entry of \<open>ReadabilityAnalyzer.analyze\<close>.
  Each may raise; a transform that raises still returns the generator state it reached.
\<close>

record 'g collaborators =
  col_rng :: "'g rng_ops"
  col_entropy :: "nat \<Rightarrow> 'g"
  col_parser_error :: "error option"
  col_restructure :: "'g \<Rightarrow> pystr \<Rightarrow> (error + pystr) \<times> 'g"
  col_replace_semantics :: "pystr \<Rightarrow> 'g \<Rightarrow> pystr \<Rightarrow> real \<Rightarrow> (error + pystr) \<times> 'g"
  col_similarity :: "pystr \<Rightarrow> pystr \<Rightarrow> error + real"
  col_fk_grade :: "pystr \<Rightarrow> error + real"

record 'g HumanizationPipeline =
  hp_intensity :: real
  enable_unicode :: bool
  enable_syntax :: bool
  enable_semantics :: bool
  hp_formality :: pystr
  quality_threshold :: real
  space_manipulator :: "'g SpaceManipulator"
  syntax_random :: 'g
  semantic_random :: 'g

text \<open>
  \<open>HumanizationPipeline.__init__\<close>. The only checks are the ones made by the constructors
  it calls: \<open>NLPParser()\<close> first, then \<open>SpaceManipulator(intensity, seed)\<close>.
\<close>

definition HumanizationPipeline_init ::
  "'g collaborators \<Rightarrow> real \<Rightarrow> bool \<Rightarrow> bool \<Rightarrow> bool \<Rightarrow> pystr \<Rightarrow> real \<Rightarrow> int option
     \<Rightarrow> error + 'g HumanizationPipeline" where
  "HumanizationPipeline_init C intensity e_unicode e_syntax e_semantics formality threshold seed =
     (case col_parser_error C of
        Some e \<Rightarrow> Inl e
      | None \<Rightarrow>
         (case SpaceManipulator_init (col_rng C) intensity seed (col_entropy C 0) of
            Inl e \<Rightarrow> Inl e
          | Inr sm \<Rightarrow>
              Inr \<lparr> hp_intensity = intensity, enable_unicode = e_unicode,
                    enable_syntax = e_syntax, enable_semantics = e_semantics,
                    hp_formality = formality, quality_threshold = threshold,
                    space_manipulator = sm,
                    syntax_random = Random_init (col_rng C) seed (col_entropy C 1),
                    semantic_random = Random_init (col_rng C) seed (col_entropy C 2) \<rparr>))"

text \<open>
  The three steps of \<open>humanize\<close>. Each takes and returns the pipeline (for the generator
  states), the current text and the list of applied transformations; \<open>original_text\<close>
  is the reference of every similarity check.
\<close>

definition syntax_step ::
  "'g collaborators \<Rightarrow> pystr \<Rightarrow> 'g HumanizationPipeline \<times> pystr \<times> pystr list
     \<Rightarrow> 'g HumanizationPipeline \<times> pystr \<times> pystr list" where
  "syntax_step C original_text st =
     (case st of (self, current_text, transformations_applied) \<Rightarrow>
        if enable_syntax self then
          (case col_restructure C (syntax_random self) current_text of
             (Inl e, g) \<Rightarrow> (self\<lparr>syntax_random := g\<rparr>, current_text, transformations_applied)
           | (Inr restructured, g) \<Rightarrow>
               (case col_similarity C original_text restructured of
                  Inl e \<Rightarrow> (self\<lparr>syntax_random := g\<rparr>, current_text, transformations_applied)
                | Inr similarity \<Rightarrow>
                    if similarity \<ge> quality_threshold self
                    then (self\<lparr>syntax_random := g\<rparr>, restructured,
                          transformations_applied @ [str ''syntax_restructuring''])
                    else (self\<lparr>syntax_random := g\<rparr>, current_text, transformations_applied)))
        else st)"

definition semantic_step ::
  "'g collaborators \<Rightarrow> pystr \<Rightarrow> 'g HumanizationPipeline \<times> pystr \<times> pystr list
     \<Rightarrow> 'g HumanizationPipeline \<times> pystr \<times> pystr list" where
  "semantic_step C original_text st =
     (case st of (self, current_text, transformations_applied) \<Rightarrow>
        if enable_semantics self then
          (case col_replace_semantics C (hp_formality self) (semantic_random self) current_text
                  (hp_intensity self) of
             (Inl e, g) \<Rightarrow> (self\<lparr>semantic_random := g\<rparr>, current_text, transformations_applied)
           | (Inr semantic_text, g) \<Rightarrow>
               (case col_similarity C original_text semantic_text of
                  Inl e \<Rightarrow> (self\<lparr>semantic_random := g\<rparr>, current_text, transformations_applied)
                | Inr similarity \<Rightarrow>
                    if similarity \<ge> quality_threshold self
                    then (self\<lparr>semantic_random := g\<rparr>, semantic_text,
                          transformations_applied @ [str ''semantic_replacement''])
                    else (self\<lparr>semantic_random := g\<rparr>, current_text, transformations_applied)))
        else st)"

definition unicode_step ::
  "'g collaborators \<Rightarrow> 'g HumanizationPipeline \<times> pystr \<times> pystr list
     \<Rightarrow> 'g HumanizationPipeline \<times> pystr \<times> pystr list" where
  "unicode_step C st =
     (case st of (self, current_text, transformations_applied) \<Rightarrow>
        if enable_unicode self then
          (let (unicode_text, sm) =
                 replace_spaces (col_rng C) (space_manipulator self) current_text True
           in (self\<lparr>space_manipulator := sm\<rparr>, unicode_text,
               transformations_applied @ [str ''unicode_manipulation'']))
        else st)"

definition run_steps ::
  "'g collaborators \<Rightarrow> 'g HumanizationPipeline \<Rightarrow> pystr
     \<Rightarrow> 'g HumanizationPipeline \<times> pystr \<times> pystr list" where
  "run_steps C self text =
     unicode_step C (semantic_step C text (syntax_step C text (self, text, [])))"

text \<open>
  \<open>_calculate_quality_metrics\<close>. The entries for AI risk, word counts and lexical
  diversity are reports of total functions of the two texts; they decide nothing and are
  left out of the record.
\<close>

record metrics =
  semantic_similarity :: real
  readability_change :: real
  original_readability :: real
  modified_readability :: real
  spaces_replaced :: int
  space_replacement_rate :: real

definition calculate_quality_metrics ::
  "'g collaborators \<Rightarrow> pystr \<Rightarrow> pystr \<Rightarrow> error + metrics" where
  "calculate_quality_metrics C original_text modified =
     (case col_fk_grade C original_text of
        Inl e \<Rightarrow> Inl e
      | Inr orig_score \<Rightarrow>
         (case col_fk_grade C modified of
            Inl e \<Rightarrow> Inl e
          | Inr mod_score \<Rightarrow>
             (let diff = mod_score - orig_score;
                  pct_change = (if orig_score \<noteq> 0 then diff / orig_score * 100 else 0)
              in (case col_similarity C original_text modified of
                    Inl e \<Rightarrow> Inl e
                  | Inr sim \<Rightarrow>
                      (let (replaced, rate) = get_replacement_stats original_text modified
                       in Inr \<lparr> semantic_similarity = sim, readability_change = pct_change,
                                 original_readability = orig_score,
                                 modified_readability = mod_score,
                                 spaces_replaced = replaced,
                                 space_replacement_rate = rate \<rparr>)))))"

record humanize_result =
  original :: pystr
  humanized :: pystr
  transformations_applied :: "pystr list"
  quality_metrics :: "metrics option"
  passed_quality_check :: bool

text \<open>
  \<open>humanize\<close>. An exception of \<open>_calculate_quality_metrics\<close> is not caught and ends the
  call. The empty dictionary of the early return is \<open>None\<close>.
\<close>

definition humanize ::
  "'g collaborators \<Rightarrow> 'g HumanizationPipeline \<Rightarrow> pystr
     \<Rightarrow> (error + humanize_result) \<times> 'g HumanizationPipeline" where
  "humanize C self text =
     (if text = [] \<or> strip text = [] then
        (Inr \<lparr> original = text, humanized = text, transformations_applied = [],
                quality_metrics = None, passed_quality_check = True \<rparr>, self)
      else
        (case run_steps C self text of (self', current_text, applied) \<Rightarrow>
           (case calculate_quality_metrics C text current_text of
              Inl e \<Rightarrow> (Inl e, self')
            | Inr qm \<Rightarrow>
               (let passed = (semantic_similarity qm \<ge> quality_threshold self' \<and>
                              \<bar>readability_change qm\<bar> \<le> 5)
                in if \<not> passed
                   then (Inr \<lparr> original = text, humanized = text,
                                transformations_applied = [],
                                quality_metrics = Some qm, passed_quality_check = passed \<rparr>,
                         self')
                   else (Inr \<lparr> original = text, humanized = current_text,
                                transformations_applied = applied,
                                quality_metrics = Some qm, passed_quality_check = passed \<rparr>,
                         self')))))"

text \<open>
  Collaborators to run the model on inputs: the parser loads, both transforms return
  their input, the similarity model is unavailable (so \<open>calculate_similarity\<close> returns
  \<open>0.0\<close>), and every text has grade \<open>8\<close>.
\<close>

definition offline :: "nat collaborators" where
  "offline = \<lparr> col_rng = lcg, col_entropy = (\<lambda>k. k), col_parser_error = None,
               col_restructure = (\<lambda>g t. (Inr t, g)),
               col_replace_semantics = (\<lambda>f g t i. (Inr t, g)),
               col_similarity = (\<lambda>a b. Inr 0),
               col_fk_grade = (\<lambda>t. Inr 8) \<rparr>"

text \<open>
  The per-stage gate: a candidate is accepted when the transform produced it, the
  similarity call returned, and the similarity to the original is at least the threshold.
\<close>

definition accepts :: "'g collaborators \<Rightarrow> real \<Rightarrow> pystr \<Rightarrow> error + pystr \<Rightarrow> bool" where
  "accepts C threshold original_text candidate =
     (case candidate of
        Inl e \<Rightarrow> False
      | Inr c \<Rightarrow> (case col_similarity C original_text c of
                   Inl e \<Rightarrow> False
                 | Inr similarity \<Rightarrow> similarity \<ge> threshold))"

text \<open>Concrete pipelines and collaborators, to run the model on inputs.\<close>

definition unicode_only :: "nat HumanizationPipeline" where
  "unicode_only =
     \<lparr> hp_intensity = 1/2, enable_unicode = True, enable_syntax = False,
       enable_semantics = False, hp_formality = str ''formal'', quality_threshold = 85/100,
       space_manipulator =
         \<lparr> sm_intensity = 1/2, sm_random = 42,
           sm_variants = [[0xA0], [0x2002], [0x2003], [0x2009], [0x200A], [0x200B], [0x2007], [0x202F]] \<rparr>,
       syntax_random = 42, semantic_random = 42 \<rparr>"

definition online :: "nat collaborators" where
  "online = offline\<lparr> col_similarity := (\<lambda>a b. Inr 1) \<rparr>"

definition all_enabled :: "nat HumanizationPipeline" where
  "all_enabled = unicode_only\<lparr> enable_syntax := True, enable_semantics := True \<rparr>"

section \<open>String operations\<close>

text \<open>
  \<open>str.split()\<close> without arguments: skip whitespace, take the run of non-whitespace
  characters as a word, repeat. \<open>join sep ws\<close> is \<open>sep.join(ws)\<close>.
\<close>

function split_ws :: "pystr \<Rightarrow> pystr list" where
  "split_ws s =
     (let s' = dropWhile isspace s
      in if s' = [] then []
         else takeWhile (\<lambda>c. \<not> isspace c) s' # split_ws (dropWhile (\<lambda>c. \<not> isspace c) s'))"
  by pat_completeness auto
termination
proof (relation "measure length")
  show "wf (measure length)" by simp
next
  fix s s' :: pystr
  assume s': "s' = dropWhile isspace s" and ne: "s' \<noteq> []"
  from ne obtain x xs where x: "s' = x # xs" by (cases s') auto
  have "\<not> isspace (hd (dropWhile isspace s))"
    using ne unfolding s' by (rule hd_dropWhile)
  then have "\<not> isspace x"
    using x unfolding s' by simp
  then have "dropWhile (\<lambda>c. \<not> isspace c) s' = dropWhile (\<lambda>c. \<not> isspace c) xs"
    by (simp add: x)
  then have "length (dropWhile (\<lambda>c. \<not> isspace c) s') \<le> length xs"
    by (simp add: length_dropWhile_le)
  also have "length xs < length s'" by (simp add: x)
  also have "length s' \<le> length s" by (simp add: s' length_dropWhile_le)
  finally show "(dropWhile (\<lambda>c. \<not> isspace c) s', s) \<in> measure length" by simp
qed

declare split_ws.simps [simp del]

fun join :: "pystr \<Rightarrow> pystr list \<Rightarrow> pystr" where
  "join sep [] = []"
| "join sep [w] = w"
| "join sep (w # v # ws) = w @ sep @ join sep (v # ws)"

text \<open>A word as \<open>split()\<close> returns it: not empty and free of whitespace.\<close>

definition token :: "pystr \<Rightarrow> bool" where
  "token w \<longleftrightarrow> w \<noteq> [] \<and> (\<forall>c \<in> set w. \<not> isspace c)"

text \<open>
  Case mapping (\<open>str.lower\<close>, \<open>str.capitalize\<close>, \<open>str.isupper\<close>) follows the Unicode
  tables and can change the length of a string, so the three operations are arguments.
  \<open>ascii_case\<close> is what they do on ASCII text, and \<open>case_ok\<close> says that the operations
  agree with it on ASCII text.
\<close>

record case_ops =
  str_lower :: "pystr \<Rightarrow> pystr"
  str_capitalize :: "pystr \<Rightarrow> pystr"
  str_isupper :: "pystr \<Rightarrow> bool"

definition ascii_lower_char :: "pychar \<Rightarrow> pychar" where
  "ascii_lower_char c = (if 65 \<le> c \<and> c \<le> 90 then c + 32 else c)"

definition ascii_upper_char :: "pychar \<Rightarrow> pychar" where
  "ascii_upper_char c = (if 97 \<le> c \<and> c \<le> 122 then c - 32 else c)"

definition ascii_case :: case_ops where
  "ascii_case =
     \<lparr> str_lower = map ascii_lower_char,
       str_capitalize = (\<lambda>s. case s of [] \<Rightarrow> [] | c # cs \<Rightarrow> ascii_upper_char c # map ascii_lower_char cs),
       str_isupper = (\<lambda>s. (\<exists>c \<in> set s. 65 \<le> c \<and> c \<le> 90) \<and> \<not> (\<exists>c \<in> set s. 97 \<le> c \<and> c \<le> 122)) \<rparr>"





section \<open>Semantic replacement (\<open>semantic_replacer.py\<close>)\<close>






text \<open>
  For the proofs: a string made of words separated by single spaces; the check on an
  alternative of the table that makes it and its capitalised form such strings; and the
  state of \<open>replace_discourse_markers\<close> once one pass has rebuilt the text.
\<close>

definition spaced :: "pystr \<Rightarrow> bool" where
  "spaced s \<longleftrightarrow> (\<exists>ws. ws \<noteq> [] \<and> (\<forall>w \<in> set ws. token w) \<and> s = join [32] ws)"



section \<open>Sentence-length balancing (\<open>syntax_restructurer.py\<close>)\<close>

text \<open>
  \<open>split_once sep s\<close> is \<open>s.split(sep, 1)\<close>; \<open>rstrip_chars chars s\<close> is \<open>s.rstrip(chars)\<close>;
  \<open>rstrip s\<close> is \<open>s.rstrip()\<close>. \<open>vary_loop\<close> is the \<open>while\<close> loop of
  \<open>vary_sentence_complexity\<close> on the sentences from index \<open>i\<close> on: it returns what the
  loop appends to \<open>result\<close> from there and the generator state.
\<close>

definition split_once :: "pychar \<Rightarrow> pystr \<Rightarrow> pystr list" where
  "split_once sep s =
     (if sep \<in> set s then [takeWhile (\<lambda>c. c \<noteq> sep) s, tl (dropWhile (\<lambda>c. c \<noteq> sep) s)]
      else [s])"

definition rstrip_chars :: "pystr \<Rightarrow> pystr \<Rightarrow> pystr" where
  "rstrip_chars chars s = rev (dropWhile (\<lambda>c. c \<in> set chars) (rev s))"


fun vary_loop :: "case_ops \<Rightarrow> 'g rng_ops \<Rightarrow> pystr list \<Rightarrow> 'g \<Rightarrow> pystr list \<times> 'g" where
  "vary_loop L G [] g = ([], g)"
| "vary_loop L G (sent # rest) g =
     (let words = split_ws sent;
          parts = split_once 0x2C sent
      in if length words > 30 \<and> 0x2C \<in> set sent \<and> length parts = 2 then
           (let (result, g') = vary_loop L G rest g
            in ((strip (parts ! 0) @ str ''.'') # strip (parts ! 1) # result, g'))
         else
           (case rest of
              next_sent # rest' \<Rightarrow>
                if length words < 8 \<and> length (split_ws next_sent) < 8 then
                  (let (connector, g1) = choice G g [str ''and'', str ''while'', str ''as''];
                       combined = rstrip_chars (str ''.'') sent @ str '' '' @ connector @ str '' '' @
                                  str_lower L next_sent;
                       (result, g2) = vary_loop L G rest' g1
                   in (combined # result, g2))
                else (let (result, g') = vary_loop L G rest g in (sent # result, g'))
            | [] \<Rightarrow> (let (result, g') = vary_loop L G rest g in (sent # result, g'))))"

definition vary_sentence_complexity ::
  "case_ops \<Rightarrow> 'g rng_ops \<Rightarrow> 'g \<Rightarrow> pystr list \<Rightarrow> (pystr list \<times> real) \<times> 'g" where
  "vary_sentence_complexity L G g sentences =
     (if sentences = [] then ((sentences, 0), g)
      else (let (result, g') = vary_loop L G sentences g
            in ((result, if length result \<noteq> length sentences then 1/2 else 0), g')))"

section \<open>Content-word substitution (\<open>semantic_replacer.py\<close>)\<close>




text \<open>
  A spaCy token, with the attributes the replacer reads (\<open>text\<close>, \<open>pos_\<close>,
  \<open>text_with_ws\<close>), and the language resources: \<open>nlp_parse\<close> is \<open>NLPParser.parse\<close> (it may
  raise), \<open>nlp_synsets word pos\<close> gives the lemma names of each synset of
  \<open>wordnet.synsets(word, pos=pos)\<close>, and \<open>nlp_set_order\<close> is the order in which Python
  iterates over the set of synonyms.
\<close>

record token =
  tok_text :: pystr
  tok_pos :: pystr
  text_with_ws :: pystr












text \<open>What one step of the loop may append (used in the proofs).\<close>

definition piece_ok :: "pystr list \<Rightarrow> bool \<Rightarrow> pystr \<Rightarrow> nat \<times> pychar \<Rightarrow> pystr \<Rightarrow> bool" where
  "piece_ok variants pb text ic r \<longleftrightarrow>
     r = [snd ic] \<or>
     (snd ic = 32 \<and> \<not> (pb \<and> is_boundary text (fst ic)) \<and> r \<in> set variants)"

definition piece_full :: "pystr list \<Rightarrow> nat \<times> pychar \<Rightarrow> pystr \<Rightarrow> bool" where
  "piece_full variants ic r \<longleftrightarrow> (if snd ic = 32 then r \<in> set variants else r = [snd ic])"

section \<open>Facts about the space codec\<close>

lemma standard_space_eq: "standard_space = [32]"
  by (simp add: standard_space_def SPACE_VARIANTS_def str_def)

lemma init_variants:
  "SpaceManipulator_init G intensity seed entropy = Inr self \<Longrightarrow>
   sm_variants self = [[0xA0], [0x2002], [0x2003], [0x2009], [0x200A], [0x200B], [0x2007], [0x202F]]"
  by (auto simp: SpaceManipulator_init_def SPACE_VARIANTS_def str_def split: if_splits)

lemma init_intensity:
  "SpaceManipulator_init G intensity seed entropy = Inr self \<Longrightarrow>
   sm_intensity self = intensity \<and> 0 \<le> intensity \<and> intensity \<le> 1"
  by (auto simp: SpaceManipulator_init_def split: if_splits)

lemma init_random:
  "SpaceManipulator_init G intensity seed entropy = Inr self \<Longrightarrow>
   sm_random self = Random_init G seed entropy"
  by (auto simp: SpaceManipulator_init_def split: if_splits)

lemma choice_in_set:
  assumes "rng_ok G" "xs \<noteq> []"
  shows "fst (choice G g xs) \<in> set xs"
proof -
  have "fst (rng_randbelow G g (length xs)) < length xs"
    using assms by (simp add: rng_ok_def)
  then show ?thesis
    by (simp add: choice_def split_beta)
qed

lemma replace_char_piece:
  assumes "rng_ok G" "variants \<noteq> []"
  shows "piece_ok variants pb text (i, c) (fst (replace_char G p variants pb text i c g))"
  using choice_in_set[OF assms]
  by (auto simp: piece_ok_def replace_char_def standard_space_eq split_beta)

lemma replace_loop_pieces:
  assumes "rng_ok G" "variants \<noteq> []"
  shows "list_all2 (piece_ok variants pb text) ics (fst (replace_loop G p variants pb text ics g))"
proof (induction ics arbitrary: g)
  case Nil
  show ?case by simp
next
  case (Cons ic ics)
  obtain i c where ic: "ic = (i, c)" by (cases ic)
  show ?case
    using replace_char_piece[OF assms, of pb "text" i c p g] Cons.IH
    by (simp add: ic split_beta)
qed

lemma concat_singletons:
  "\<forall>r \<in> set rs. length r = 1 \<Longrightarrow> concat rs = map hd rs"
proof (induction rs)
  case Nil
  show ?case by simp
next
  case (Cons r rs)
  then obtain x where "r = [x]"
    by (cases r) auto
  with Cons show ?case by simp
qed

lemma pieces_singletons:
  assumes "list_all2 (piece_ok variants pb text) ics rs" "\<forall>v \<in> set variants. length v = 1"
  shows "\<forall>r \<in> set rs. length r = 1"
proof
  fix r assume "r \<in> set rs"
  then obtain j where j: "j < length rs" "rs ! j = r"
    by (auto simp: in_set_conv_nth)
  have "piece_ok variants pb text (ics ! j) (rs ! j)"
    using assms(1) j(1) by (simp add: list_all2_conv_all_nth)
  with assms(2) j(2) show "length r = 1"
    by (auto simp: piece_ok_def)
qed

text \<open>The output of the loop, position by position.\<close>

lemma replace_spaces_pointwise:
  assumes ok: "rng_ok G"
    and init: "SpaceManipulator_init G intensity seed entropy = Inr self"
    and i: "i < length text"
  shows "length (fst (replace_spaces G self text pb)) = length text"
    and "fst (replace_spaces G self text pb) ! i = text ! i \<or>
         (text ! i = 32 \<and> \<not> (pb \<and> is_boundary text i) \<and>
          [fst (replace_spaces G self text pb) ! i] \<in> set (sm_variants self))"
proof -
  let ?vs = "sm_variants self"
  let ?rs = "fst (replace_loop G (sm_intensity self) ?vs pb text (enumerate 0 text) (sm_random self))"
  have vs: "?vs \<noteq> []" "\<forall>v \<in> set ?vs. length v = 1"
    using init_variants[OF init] by simp_all
  have rel: "list_all2 (piece_ok ?vs pb text) (enumerate 0 text) ?rs"
    by (rule replace_loop_pieces[OF ok vs(1)])
  have len: "length ?rs = length text"
    using list_all2_lengthD[OF rel] by simp
  have single: "\<forall>r \<in> set ?rs. length r = 1"
    by (rule pieces_singletons[OF rel vs(2)])
  have cc: "concat ?rs = map hd ?rs"
    by (rule concat_singletons[OF single])
  have out: "fst (replace_spaces G self text pb) =
               (if text = [] \<or> sm_intensity self = 0 then text else map hd ?rs)"
    by (simp add: replace_spaces_def split_beta cc)
  show "length (fst (replace_spaces G self text pb)) = length text"
    by (simp add: out len)
  have pi: "piece_ok ?vs pb text (i, text ! i) (?rs ! i)"
    using rel i by (simp add: list_all2_conv_all_nth nth_enumerate_eq)
  have ri: "length (?rs ! i) = 1"
    using single i len by simp
  then obtain x where x: "?rs ! i = [x]"
    by (cases "?rs ! i") auto
  show "fst (replace_spaces G self text pb) ! i = text ! i \<or>
         (text ! i = 32 \<and> \<not> (pb \<and> is_boundary text i) \<and>
          [fst (replace_spaces G self text pb) ! i] \<in> set (sm_variants self))"
    using pi x i len by (auto simp: out piece_ok_def)
qed

lemma lcg_ok: "rng_ok lcg"
  by (simp add: rng_ok_def lcg_def)

section \<open>Claims about the space codec\<close>

text \<open>
  C3. For every text, every intensity in \<open>[0, 1]\<close> (the intensities the constructor
  accepts), every seed and either value of \<open>preserve_boundaries\<close>, the output of
  \<open>replace_spaces\<close> has as many characters as the input, and a position that does not hold
  an ASCII space holds the same code point in the output.
\<close>

theorem C3_length_invariance:
  assumes "rng_ok G"
    and "SpaceManipulator_init G intensity seed entropy = Inr self"
  shows "length (fst (replace_spaces G self text pb)) = length text \<and>
         (\<forall>i < length text. text ! i \<noteq> 0x20 \<longrightarrow>
              fst (replace_spaces G self text pb) ! i = text ! i)"
proof -
  have "length (fst (replace_spaces G self text pb)) = length text"
  proof (cases "text = []")
    case True
    then show ?thesis by (simp add: replace_spaces_def)
  next
    case False
    then have "0 < length text" by simp
    from replace_spaces_pointwise(1)[OF assms this] show ?thesis .
  qed
  moreover have "\<forall>i < length text. text ! i \<noteq> 0x20 \<longrightarrow>
              fst (replace_spaces G self text pb) ! i = text ! i"
    using replace_spaces_pointwise(2)[OF assms] by auto
  ultimately show ?thesis by simp
qed

lemma lcg_init_half:
  "SpaceManipulator_init lcg (1/2) (Some 42) 0 =
     Inr \<lparr>sm_intensity = 1/2, sm_random = 42,
          sm_variants = [[0xA0], [0x2002], [0x2003], [0x2009], [0x200A], [0x200B], [0x2007], [0x202F]]\<rparr>"
  by (simp add: SpaceManipulator_init_def Random_init_def lcg_def SPACE_VARIANTS_def str_def)

theorem C3_witness:
  "rng_ok lcg \<and>
   length (fst (replace_spaces lcg
      \<lparr>sm_intensity = 1/2, sm_random = 42,
          sm_variants = [[0xA0], [0x2002], [0x2003], [0x2009], [0x200A], [0x200B], [0x2007], [0x202F]]\<rparr>
      (str ''a b'') False)) = 3"
  using C3_length_invariance[OF lcg_ok lcg_init_half, of "str ''a b''" False] lcg_ok
  by (simp add: str_def)

lemma is_boundary_iff:
  "i < length text \<Longrightarrow> is_boundary text i \<longleftrightarrow>
     (i = 0 \<or> i + 1 = length text \<or> (0 < i \<and> text ! (i - 1) = 10) \<or>
      (i + 1 < length text \<and> text ! (i + 1) = 10))"
  by (auto simp: is_boundary_def Let_def)

lemma replace_loop_snd_Cons:
  "snd (replace_loop G p vs pb text ((i, c) # ics) g) =
   snd (replace_loop G p vs pb text ics (snd (replace_char G p vs pb text i c g)))"
  by (simp add: split_beta)

lemma replace_char_state_candidate:
  "c = 32 \<Longrightarrow> \<not> (pb \<and> is_boundary text i) \<Longrightarrow>
   snd (replace_char G p vs pb text i c g) =
     (if fst (rng_random G g) < p then snd (choice G (snd (rng_random G g)) vs)
      else snd (rng_random G g))"
  by (auto simp: replace_char_def standard_space_eq split_beta)

lemma replace_char_state_other:
  "c \<noteq> 32 \<or> (pb \<and> is_boundary text i) \<Longrightarrow> snd (replace_char G p vs pb text i c g) = g"
  by (auto simp: replace_char_def standard_space_eq)

lemma consume_draws_Suc:
  "consume_draws G p vs (Suc n) g =
     consume_draws G p vs n
       (if fst (rng_random G g) < p then snd (choice G (snd (rng_random G g)) vs)
        else snd (rng_random G g))"
  by (simp add: split_beta)

lemma replace_loop_state:
  "snd (replace_loop G p vs True text ics g) =
     consume_draws G p vs (length (filter (\<lambda>(i, c). c = 32 \<and> \<not> is_boundary text i) ics)) g"
proof (induction ics arbitrary: g)
  case Nil
  show ?case by simp
next
  case (Cons ic ics)
  obtain i c where ic: "ic = (i, c)" by (cases ic)
  let ?P = "\<lambda>(i, c). c = 32 \<and> \<not> is_boundary text i"
  let ?g' = "snd (replace_char G p vs True text i c g)"
  have step: "snd (replace_loop G p vs True text (ic # ics) g) =
              consume_draws G p vs (length (filter ?P ics)) ?g'"
    unfolding ic replace_loop_snd_Cons by (rule Cons.IH)
  show ?case
  proof (cases "c = 32 \<and> \<not> is_boundary text i")
    case True
    have g': "?g' = (if fst (rng_random G g) < p then snd (choice G (snd (rng_random G g)) vs)
        else snd (rng_random G g))"
      using True by (intro replace_char_state_candidate) auto
    have "length (filter ?P (ic # ics)) = Suc (length (filter ?P ics))"
      using True by (simp add: ic)
    then show ?thesis
      unfolding step g' by (simp only: consume_draws_Suc)
  next
    case False
    have g': "?g' = g"
      using False by (intro replace_char_state_other) auto
    have "length (filter ?P (ic # ics)) = length (filter ?P ics)"
      using False by (simp add: ic)
    then show ?thesis
      unfolding step g' by (simp only:)
  qed
qed

lemma enumerate_as_map: "enumerate 0 xs = map (\<lambda>i. (i, xs ! i)) [0..<length xs]"
  by (rule nth_equalityI) (simp_all add: nth_enumerate_eq)

lemma candidates_count:
  "length (filter (\<lambda>(i, c). c = 32 \<and> \<not> is_boundary text i) (enumerate 0 text)) =
   length (candidate_positions text)"
proof -
  have "filter (\<lambda>i. text ! i = 32 \<and> \<not> is_boundary text i) [0..<length text] =
        candidate_positions text"
    unfolding candidate_positions_def
    by (rule filter_cong) (auto simp: is_boundary_iff)
  then show ?thesis
    by (simp add: enumerate_as_map filter_map comp_def)
qed

lemma replace_spaces_state:
  "sm_random (snd (replace_spaces G self text True)) =
     (if text = [] \<or> sm_intensity self = 0 then sm_random self
      else consume_draws G (sm_intensity self) (sm_variants self)
             (length (candidate_positions text)) (sm_random self))"
  by (simp add: replace_spaces_def split_beta replace_loop_state candidates_count)

text \<open>
  C4. With \<open>preserve_boundaries = True\<close>, an ASCII space that is the first or the last
  character of the text, or next to a newline, is unchanged at its position in the output
  of \<open>replace_spaces\<close>; and the generator is advanced only for the other ASCII spaces: its
  final state is the state after one visit per non-boundary ASCII space (no draw at all
  when the text is empty or the intensity is \<open>0.0\<close>).
\<close>

theorem C4_boundary_preservation:
  assumes "rng_ok G"
    and "SpaceManipulator_init G intensity seed entropy = Inr self"
  shows "(\<forall>i < length text.
            text ! i = 0x20 \<and>
            (i = 0 \<or> i + 1 = length text \<or> (0 < i \<and> text ! (i - 1) = 0x0A) \<or>
             (i + 1 < length text \<and> text ! (i + 1) = 0x0A)) \<longrightarrow>
            fst (replace_spaces G self text True) ! i = 0x20) \<and>
         sm_random (snd (replace_spaces G self text True)) =
           (if text = [] \<or> intensity = 0 then sm_random self
            else consume_draws G intensity (sm_variants self)
                   (length (candidate_positions text)) (sm_random self))"
proof -
  have "\<forall>i < length text.
            text ! i = 0x20 \<and>
            (i = 0 \<or> i + 1 = length text \<or> (0 < i \<and> text ! (i - 1) = 0x0A) \<or>
             (i + 1 < length text \<and> text ! (i + 1) = 0x0A)) \<longrightarrow>
            fst (replace_spaces G self text True) ! i = 0x20"
  proof (intro allI impI)
    fix i assume i: "i < length text"
      and b: "text ! i = 0x20 \<and>
            (i = 0 \<or> i + 1 = length text \<or> (0 < i \<and> text ! (i - 1) = 0x0A) \<or>
             (i + 1 < length text \<and> text ! (i + 1) = 0x0A))"
    then have "is_boundary text i"
      by (simp add: is_boundary_iff)
    with replace_spaces_pointwise(2)[OF assms i, of True] b
    show "fst (replace_spaces G self text True) ! i = 0x20"
      by auto
  qed
  moreover have "sm_random (snd (replace_spaces G self text True)) =
           (if text = [] \<or> intensity = 0 then sm_random self
            else consume_draws G intensity (sm_variants self)
                   (length (candidate_positions text)) (sm_random self))"
    using init_intensity[OF assms(2)] by (simp add: replace_spaces_state)
  ultimately show ?thesis by blast
qed


theorem C4_witness:
  "rng_ok lcg \<and>
   fst (replace_spaces lcg
      \<lparr>sm_intensity = 1/2, sm_random = 42,
          sm_variants = [[0xA0], [0x2002], [0x2003], [0x2009], [0x200A], [0x200B], [0x2007], [0x202F]]\<rparr>
      (str '' a b'') True) ! 0 = 0x20"
proof -
  have "\<forall>i < length (str '' a b'').
            str '' a b'' ! i = 0x20 \<and>
            (i = 0 \<or> i + 1 = length (str '' a b'') \<or> (0 < i \<and> str '' a b'' ! (i - 1) = 0x0A) \<or>
             (i + 1 < length (str '' a b'') \<and> str '' a b'' ! (i + 1) = 0x0A)) \<longrightarrow>
            fst (replace_spaces lcg
      \<lparr>sm_intensity = 1/2, sm_random = 42,
          sm_variants = [[0xA0], [0x2002], [0x2003], [0x2009], [0x200A], [0x200B], [0x2007], [0x202F]]\<rparr>
      (str '' a b'') True) ! i = 0x20"
    using C4_boundary_preservation[OF lcg_ok lcg_init_half, of "str '' a b''"] by blast
  from this[rule_format, of 0] lcg_ok show ?thesis
    by (simp add: str_def)
qed

lemma replace_char_full:
  assumes "rng_ok G" "variants \<noteq> []"
  shows "piece_full variants (i, c) (fst (replace_char G 1 variants False text i c g))"
proof -
  have "fst (rng_random G g) < 1"
    using assms(1) by (simp add: rng_ok_def)
  then show ?thesis
    using choice_in_set[OF assms, of "snd (rng_random G g)"]
    by (simp add: piece_full_def replace_char_def standard_space_eq split_beta)
qed

lemma replace_loop_full:
  assumes "rng_ok G" "variants \<noteq> []"
  shows "list_all2 (piece_full variants) ics (fst (replace_loop G 1 variants False text ics g))"
proof (induction ics arbitrary: g)
  case Nil
  show ?case by simp
next
  case (Cons ic ics)
  obtain i c where ic: "ic = (i, c)" by (cases ic)
  show ?case
    using replace_char_full[OF assms, of i c "text" g] Cons.IH
    by (simp add: ic split_beta)
qed

lemma run_full_intensity:
  assumes ok: "rng_ok G" and i: "i < length text"
  shows "\<exists>out. codec_run G 1 seed entropy text False = Inr out \<and> length out = length text \<and>
           (if text ! i = 32 then out ! i \<in> {0xA0, 0x2002, 0x2003, 0x2009, 0x200A, 0x200B, 0x2007, 0x202F}
            else out ! i = text ! i)"
proof -
  obtain self where init: "SpaceManipulator_init G 1 seed entropy = Inr self"
    by (simp add: SpaceManipulator_init_def)
  define vs where "vs = sm_variants self"
  define rs where "rs = fst (replace_loop G 1 vs False text (enumerate 0 text) (sm_random self))"
  have vseq: "vs = [[0xA0], [0x2002], [0x2003], [0x2009], [0x200A], [0x200B], [0x2007], [0x202F]]"
    unfolding vs_def by (rule init_variants[OF init])
  have vs: "vs \<noteq> []"
    by (simp add: vseq)
  have int1: "sm_intensity self = 1"
    using init_intensity[OF init] by simp
  have rel: "list_all2 (piece_full vs) (enumerate 0 text) rs"
    unfolding rs_def by (rule replace_loop_full[OF ok vs])
  have len: "length rs = length text"
    using list_all2_lengthD[OF rel] by simp
  have pf: "piece_full vs (i, text ! i) (rs ! i)"
    using rel i by (simp add: list_all2_conv_all_nth nth_enumerate_eq)
  have out: "fst (replace_spaces G self text False) = concat rs"
    using i by (auto simp: replace_spaces_def int1 split_beta rs_def vs_def)
  have len1: "length (fst (replace_spaces G self text False)) = length text"
    by (rule replace_spaces_pointwise(1)[OF ok init i])
  have single: "\<forall>r \<in> set rs. length r = 1"
  proof
    fix r assume "r \<in> set rs"
    then obtain j where j: "j < length rs" "rs ! j = r"
      by (auto simp: in_set_conv_nth)
    have "piece_full vs (enumerate 0 text ! j) (rs ! j)"
      using rel j(1) by (simp add: list_all2_conv_all_nth)
    then show "length r = 1"
      using j(2) vseq by (auto simp: piece_full_def split: if_splits)
  qed
  have nth: "concat rs ! i = hd (rs ! i)"
    using concat_singletons[OF single] i len by simp
  have "if text ! i = 32
        then hd (rs ! i) \<in> {0xA0, 0x2002, 0x2003, 0x2009, 0x200A, 0x200B, 0x2007, 0x202F}
        else hd (rs ! i) = text ! i"
    using pf vseq by (auto simp: piece_full_def split: if_splits)
  then show ?thesis
    using len1 by (auto simp: codec_run_def init out nth split: if_splits)
qed

text \<open>
  C5. At intensity \<open>0.0\<close> a run returns the text unchanged. At intensity \<open>1.0\<close> with
  \<open>preserve_boundaries = False\<close> every ASCII space is replaced by one of the eight
  variants and every other character is kept, so a text with at least one ASCII space has
  strictly fewer ASCII spaces afterwards.
\<close>

theorem C5_intensity_bounds:
  assumes "rng_ok G"
  shows "codec_run G 0 seed entropy text pb = Inr text \<and>
         (\<exists>out. codec_run G 1 seed entropy text False = Inr out \<and>
            length out = length text \<and>
            (\<forall>i < length text.
               if text ! i = 0x20
               then out ! i \<in> {0xA0, 0x2002, 0x2003, 0x2009, 0x200A, 0x200B, 0x2007, 0x202F}
               else out ! i = text ! i) \<and>
            (0x20 \<in> set text \<longrightarrow> count_list out 0x20 < count_list text 0x20))"
proof -
  have zero: "codec_run G 0 seed entropy text pb = Inr text"
    by (simp add: codec_run_def SpaceManipulator_init_def replace_spaces_def)
  obtain out where out: "codec_run G 1 seed entropy text False = Inr out"
    by (simp add: codec_run_def SpaceManipulator_init_def)
  have len: "length out = length text"
  proof (cases "text = []")
    case True
    then show ?thesis
      using out by (auto simp: codec_run_def SpaceManipulator_init_def replace_spaces_def)
  next
    case False
    then have "0 < length text" by simp
    from run_full_intensity[OF assms this, of seed entropy] out show ?thesis by auto
  qed
  have pt: "\<forall>i < length text.
               if text ! i = 0x20
               then out ! i \<in> {0xA0, 0x2002, 0x2003, 0x2009, 0x200A, 0x200B, 0x2007, 0x202F}
               else out ! i = text ! i"
  proof (intro allI impI)
    fix i assume "i < length text"
    from run_full_intensity[OF assms this, of seed entropy] out
    show "if text ! i = 0x20
               then out ! i \<in> {0xA0, 0x2002, 0x2003, 0x2009, 0x200A, 0x200B, 0x2007, 0x202F}
               else out ! i = text ! i"
      by auto
  qed
  have "32 \<notin> set out"
  proof
    assume "32 \<in> set out"
    then obtain i where i: "i < length out" "out ! i = 32"
      by (auto simp: in_set_conv_nth)
    with pt len show False
      by (auto split: if_splits)
  qed
  then have c0: "count_list out 32 = 0"
    by (simp add: count_list_0_iff)
  have "0x20 \<in> set text \<longrightarrow> count_list text 0x20 \<noteq> 0"
    by (simp add: count_list_0_iff)
  then have "0x20 \<in> set text \<longrightarrow> count_list out 0x20 < count_list text 0x20"
    using c0 by auto
  with zero out len pt show ?thesis by simp
qed

theorem C5_witness:
  "rng_ok lcg \<and> 0x20 \<in> set (str ''a b'') \<and>
   (\<exists>out. codec_run lcg 1 (Some 42) 0 (str ''a b'') False = Inr out \<and>
          count_list out 0x20 < count_list (str ''a b'') 0x20)"
  using C5_intensity_bounds[OF lcg_ok, of "Some 42" 0 "str ''a b''"] lcg_ok
  by (auto simp: str_def)

text \<open>
  C7. Two independent runs with the same text, integer seed, intensity and
  \<open>preserve_boundaries\<close>, each on a fresh \<open>SpaceManipulator\<close>, give the same result,
  whatever the entropy of the environment at either run.
\<close>

theorem C7_determinism:
  "codec_run G intensity (Some s) entropy1 text pb = codec_run G intensity (Some s) entropy2 text pb"
  by (simp add: codec_run_def SpaceManipulator_init_def Random_init_def)

lemma unicode_only_init:
  "HumanizationPipeline_init offline (1/2) True False False (str ''formal'') (85/100) (Some 42) =
     Inr unicode_only"
  by (simp add: HumanizationPipeline_init_def offline_def SpaceManipulator_init_def
       Random_init_def lcg_def SPACE_VARIANTS_def str_def unicode_only_def)

lemma syntax_step_cases:
  "syntax_step C orig (self, cur, app) =
     (self\<lparr>syntax_random := (if enable_syntax self then snd (col_restructure C (syntax_random self) cur) else syntax_random self)\<rparr>,
      if enable_syntax self \<and> accepts C (quality_threshold self) orig (fst (col_restructure C (syntax_random self) cur))
      then projr (fst (col_restructure C (syntax_random self) cur)) else cur,
      if enable_syntax self \<and> accepts C (quality_threshold self) orig (fst (col_restructure C (syntax_random self) cur))
      then app @ [str ''syntax_restructuring''] else app)"
  by (cases "col_restructure C (syntax_random self) cur")
     (auto simp: syntax_step_def accepts_def split: sum.splits)

lemma semantic_step_cases:
  "semantic_step C orig (self, cur, app) =
     (self\<lparr>semantic_random := (if enable_semantics self then snd (col_replace_semantics C (hp_formality self) (semantic_random self) cur (hp_intensity self)) else semantic_random self)\<rparr>,
      if enable_semantics self \<and> accepts C (quality_threshold self) orig (fst (col_replace_semantics C (hp_formality self) (semantic_random self) cur (hp_intensity self)))
      then projr (fst (col_replace_semantics C (hp_formality self) (semantic_random self) cur (hp_intensity self))) else cur,
      if enable_semantics self \<and> accepts C (quality_threshold self) orig (fst (col_replace_semantics C (hp_formality self) (semantic_random self) cur (hp_intensity self)))
      then app @ [str ''semantic_replacement''] else app)"
  by (cases "col_replace_semantics C (hp_formality self) (semantic_random self) cur (hp_intensity self)")
     (auto simp: semantic_step_def accepts_def split: sum.splits)

lemma unicode_step_cases:
  "unicode_step C (self, cur, app) =
     (if enable_unicode self
      then self\<lparr>space_manipulator := snd (replace_spaces (col_rng C) (space_manipulator self) cur True)\<rparr>
      else self,
      if enable_unicode self
      then fst (replace_spaces (col_rng C) (space_manipulator self) cur True) else cur,
      if enable_unicode self then app @ [str ''unicode_manipulation''] else app)"
  by (simp add: unicode_step_def split_beta)

lemma replace_abc:
  "replace_spaces lcg \<lparr> sm_intensity = 1/2, sm_random = 42,
           sm_variants = [[0xA0], [0x2002], [0x2003], [0x2009], [0x200A], [0x200B], [0x2007], [0x202F]] \<rparr>
      (str ''a b c'') True =
   ([97, 8201, 98, 8194, 99],
    \<lparr> sm_intensity = 1/2, sm_random = 1668674806,
           sm_variants = [[0xA0], [0x2002], [0x2003], [0x2009], [0x200A], [0x200B], [0x2007], [0x202F]] \<rparr>)"
  by (simp add: replace_spaces_def str_def replace_char_def standard_space_eq
      is_boundary_def lcg_def lcg_next_def choice_def)

lemma run_steps_threshold:
  "quality_threshold (fst (run_steps C self text)) = quality_threshold self"
  by (simp add: run_steps_def syntax_step_cases semantic_step_cases unicode_step_cases)

lemma run_steps_closed_form:
  "let threshold = quality_threshold self;
       cand1 = fst (col_restructure C (syntax_random self) text);
       ok1 = (enable_syntax self \<and> accepts C threshold text cand1);
       text1 = (if ok1 then projr cand1 else text);
       cand2 = fst (col_replace_semantics C (hp_formality self) (semantic_random self) text1
                     (hp_intensity self));
       ok2 = (enable_semantics self \<and> accepts C threshold text cand2);
       text2 = (if ok2 then projr cand2 else text1);
       text3 = (if enable_unicode self
                then fst (replace_spaces (col_rng C) (space_manipulator self) text2 True)
                else text2);
       names = (if ok1 then [str ''syntax_restructuring''] else []) @
               (if ok2 then [str ''semantic_replacement''] else []) @
               (if enable_unicode self then [str ''unicode_manipulation''] else [])
   in fst (snd (run_steps C self text)) = text3 \<and> snd (snd (run_steps C self text)) = names"
  by (simp add: run_steps_def syntax_step_cases semantic_step_cases unicode_step_cases Let_def)

lemma humanize_passed:
  assumes "text \<noteq> []" "strip text \<noteq> []"
    and "humanize C self text = (Inr r, self')" "passed_quality_check r"
  shows "humanized r = fst (snd (run_steps C self text)) \<and>
         transformations_applied r = snd (snd (run_steps C self text))"
  using assms
  by (auto simp: humanize_def Let_def split: prod.splits sum.splits if_splits)

section \<open>Claims about the pipeline\<close>

text \<open>
  C1, as the code has it. The steps run in the order syntax, semantic, unicode, each on
  the text the previous ones left. The syntax and the semantic candidate replace the
  current text, and their names are recorded, exactly when the step is enabled and the
  candidate's similarity to the original input is at least the threshold; an enabled
  unicode step always replaces the current text and records its name. For a non-blank
  input whose run passes the final check, \<open>humanize\<close> returns that text and that list.
\<close>

theorem C1_stage_gating:
  "let threshold = quality_threshold self;
       cand1 = fst (col_restructure C (syntax_random self) text);
       ok1 = (enable_syntax self \<and> accepts C threshold text cand1);
       text1 = (if ok1 then projr cand1 else text);
       cand2 = fst (col_replace_semantics C (hp_formality self) (semantic_random self) text1
                     (hp_intensity self));
       ok2 = (enable_semantics self \<and> accepts C threshold text cand2);
       text2 = (if ok2 then projr cand2 else text1);
       text3 = (if enable_unicode self
                then fst (replace_spaces (col_rng C) (space_manipulator self) text2 True)
                else text2);
       names = (if ok1 then [str ''syntax_restructuring''] else []) @
               (if ok2 then [str ''semantic_replacement''] else []) @
               (if enable_unicode self then [str ''unicode_manipulation''] else [])
   in fst (snd (run_steps C self text)) = text3 \<and> snd (snd (run_steps C self text)) = names \<and>
      (\<forall>r self'. text \<noteq> [] \<and> strip text \<noteq> [] \<and> humanize C self text = (Inr r, self') \<and>
                 passed_quality_check r \<longrightarrow>
                 humanized r = fst (snd (run_steps C self text)) \<and>
                 transformations_applied r = snd (snd (run_steps C self text)))"
proof -
  have "\<forall>r self'. text \<noteq> [] \<and> strip text \<noteq> [] \<and> humanize C self text = (Inr r, self') \<and>
                 passed_quality_check r \<longrightarrow>
                 humanized r = fst (snd (run_steps C self text)) \<and>
                 transformations_applied r = snd (snd (run_steps C self text))"
    using humanize_passed[of "text" C self] by blast
  with run_steps_closed_form[of self C "text"] show ?thesis
    unfolding Let_def by (intro conjI) (erule conjunct1, erule conjunct2, assumption)
qed

lemma humanize_online:
  "humanize online all_enabled (str ''a b c'') =
     (Inr \<lparr> original = str ''a b c'', humanized = [97, 8201, 98, 8194, 99],
            transformations_applied = [str ''syntax_restructuring'', str ''semantic_replacement'',
                                       str ''unicode_manipulation''],
            quality_metrics = Some \<lparr> semantic_similarity = 1, readability_change = 0,
                                    original_readability = 8, modified_readability = 8,
                                    spaces_replaced = 2, space_replacement_rate = 100 \<rparr>,
            passed_quality_check = True \<rparr>,
      all_enabled\<lparr> space_manipulator :=
         \<lparr> sm_intensity = 1/2, sm_random = 1668674806,
           sm_variants = [[0xA0], [0x2002], [0x2003], [0x2009], [0x200A], [0x200B], [0x2007], [0x202F]] \<rparr> \<rparr>)"
proof -
  have strip: "strip (str ''a b c'') = str ''a b c''"
    by (simp add: strip_def str_def isspace_def)
  have steps: "run_steps online all_enabled (str ''a b c'') =
     (all_enabled\<lparr> space_manipulator :=
         \<lparr> sm_intensity = 1/2, sm_random = 1668674806,
           sm_variants = [[0xA0], [0x2002], [0x2003], [0x2009], [0x200A], [0x200B], [0x2007], [0x202F]] \<rparr> \<rparr>,
      [97, 8201, 98, 8194, 99],
      [str ''syntax_restructuring'', str ''semantic_replacement'', str ''unicode_manipulation''])"
    by (simp add: run_steps_def syntax_step_def semantic_step_def unicode_step_def
          online_def offline_def all_enabled_def unicode_only_def replace_abc)
  have stats: "get_replacement_stats (str ''a b c'') [97, 8201, 98, 8194, 99] = (2, 100)"
    by (simp add: get_replacement_stats_def analyze_distribution_def SPACE_VARIANTS_def str_def)
  have qm: "calculate_quality_metrics online (str ''a b c'') [97, 8201, 98, 8194, 99] =
     Inr \<lparr> semantic_similarity = 1, readability_change = 0,
                                    original_readability = 8, modified_readability = 8,
                                    spaces_replaced = 2, space_replacement_rate = 100 \<rparr>"
    by (simp add: calculate_quality_metrics_def online_def offline_def stats)
  have nonempty: "str ''a b c'' \<noteq> []"
    by (simp add: str_def)
  have thr: "quality_threshold all_enabled = 85/100"
    by (simp add: all_enabled_def unicode_only_def)
  show ?thesis
    by (simp add: humanize_def strip nonempty steps qm thr)
qed

theorem C1_witness:
  "str ''a b c'' \<noteq> [] \<and> strip (str ''a b c'') \<noteq> [] \<and>
   passed_quality_check (projr (fst (humanize online all_enabled (str ''a b c'')))) \<and>
   humanized (projr (fst (humanize online all_enabled (str ''a b c'')))) =
     fst (snd (run_steps online all_enabled (str ''a b c''))) \<and>
   transformations_applied (projr (fst (humanize online all_enabled (str ''a b c'')))) =
     [str ''syntax_restructuring'', str ''semantic_replacement'', str ''unicode_manipulation'']"
proof -
  have strip: "strip (str ''a b c'') = str ''a b c''"
    by (simp add: strip_def str_def isspace_def)
  have nonempty: "str ''a b c'' \<noteq> []"
    by (simp add: str_def)
  from C1_stage_gating[of all_enabled online "str ''a b c''"]
  have "\<forall>r self'. str ''a b c'' \<noteq> [] \<and> strip (str ''a b c'') \<noteq> [] \<and>
           humanize online all_enabled (str ''a b c'') = (Inr r, self') \<and>
           passed_quality_check r \<longrightarrow>
           humanized r = fst (snd (run_steps online all_enabled (str ''a b c''))) \<and>
           transformations_applied r = snd (snd (run_steps online all_enabled (str ''a b c'')))"
    unfolding Let_def by (elim conjE)
  from this[rule_format, OF conjI[OF nonempty conjI[OF _ conjI[OF humanize_online]]]]
  show ?thesis
    by (simp add: strip nonempty humanize_online)
qed

text \<open>
  C1 as stated fails for the unicode step: with a similarity of \<open>0.0\<close> against a threshold
  of \<open>0.85\<close> the candidate of the unicode step is taken and its name recorded.
\<close>

theorem C1_counterexample:
  "enable_unicode unicode_only \<and>
   fst (snd (run_steps offline unicode_only (str ''a b c''))) = [97, 8201, 98, 8194, 99] \<and>
   snd (snd (run_steps offline unicode_only (str ''a b c''))) = [str ''unicode_manipulation''] \<and>
   col_similarity offline (str ''a b c'') [97, 8201, 98, 8194, 99] = Inr 0 \<and>
   \<not> (0 \<ge> quality_threshold unicode_only)"
  by (simp add: run_steps_def syntax_step_def semantic_step_def unicode_step_def
        offline_def unicode_only_def replace_abc)

lemma humanize_rollback:
  assumes "humanize C self text = (Inr r, self')"
    and "quality_metrics r = Some qm"
  shows "calculate_quality_metrics C text (fst (snd (run_steps C self text))) = Inr qm \<and>
         passed_quality_check r =
           (semantic_similarity qm \<ge> quality_threshold self \<and> \<bar>readability_change qm\<bar> \<le> 5) \<and>
         (\<not> passed_quality_check r \<longrightarrow> humanized r = text \<and> transformations_applied r = [])"
proof -
  have thr: "quality_threshold (fst (run_steps C self text)) = quality_threshold self"
    by (rule run_steps_threshold)
  obtain p c a where rs: "run_steps C self text = (p, c, a)"
    by (cases "run_steps C self text") auto
  have thr': "quality_threshold p = quality_threshold self"
    using thr by (simp add: rs)
  show ?thesis
    using assms
    by (auto simp: humanize_def rs thr' Let_def split: sum.splits if_splits)
qed

text \<open>
  C2. When \<open>humanize\<close> returns metrics (the metrics comparing the original with the text
  the steps produced) that fail the final check, the returned text is the original input
  and the list of applied transformations is empty, whatever the steps accepted.
\<close>

theorem C2_rollback:
  assumes "humanize C self text = (Inr r, self')"
    and "quality_metrics r = Some qm"
    and "\<not> (semantic_similarity qm \<ge> quality_threshold self \<and> \<bar>readability_change qm\<bar> \<le> 5)"
  shows "humanized r = text \<and> transformations_applied r = [] \<and> \<not> passed_quality_check r \<and>
         calculate_quality_metrics C text (fst (snd (run_steps C self text))) = Inr qm"
  using humanize_rollback[OF assms(1,2)] assms(3) by blast

lemma humanize_offline:
  "humanize offline all_enabled (str ''a b c'') =
     (Inr \<lparr> original = str ''a b c'', humanized = str ''a b c'',
            transformations_applied = [],
            quality_metrics = Some \<lparr> semantic_similarity = 0, readability_change = 0,
                                    original_readability = 8, modified_readability = 8,
                                    spaces_replaced = 2, space_replacement_rate = 100 \<rparr>,
            passed_quality_check = False \<rparr>,
      all_enabled\<lparr> space_manipulator :=
         \<lparr> sm_intensity = 1/2, sm_random = 1668674806,
           sm_variants = [[0xA0], [0x2002], [0x2003], [0x2009], [0x200A], [0x200B], [0x2007], [0x202F]] \<rparr> \<rparr>)"
proof -
  have strip: "strip (str ''a b c'') = str ''a b c''"
    by (simp add: strip_def str_def isspace_def)
  have steps: "run_steps offline all_enabled (str ''a b c'') =
     (all_enabled\<lparr> space_manipulator :=
         \<lparr> sm_intensity = 1/2, sm_random = 1668674806,
           sm_variants = [[0xA0], [0x2002], [0x2003], [0x2009], [0x200A], [0x200B], [0x2007], [0x202F]] \<rparr> \<rparr>,
      [97, 8201, 98, 8194, 99],
      [str ''unicode_manipulation''])"
    by (simp add: run_steps_def syntax_step_def semantic_step_def unicode_step_def
          offline_def all_enabled_def unicode_only_def replace_abc)
  have stats: "get_replacement_stats (str ''a b c'') [97, 8201, 98, 8194, 99] = (2, 100)"
    by (simp add: get_replacement_stats_def analyze_distribution_def SPACE_VARIANTS_def str_def)
  have qm: "calculate_quality_metrics offline (str ''a b c'') [97, 8201, 98, 8194, 99] =
     Inr \<lparr> semantic_similarity = 0, readability_change = 0,
                                    original_readability = 8, modified_readability = 8,
                                    spaces_replaced = 2, space_replacement_rate = 100 \<rparr>"
    by (simp add: calculate_quality_metrics_def offline_def stats)
  have nonempty: "str ''a b c'' \<noteq> []"
    by (simp add: str_def)
  have thr: "quality_threshold all_enabled = 85/100"
    by (simp add: all_enabled_def unicode_only_def)
  show ?thesis
    by (simp add: humanize_def strip nonempty steps qm thr)
qed

theorem C2_witness:
  "snd (snd (run_steps offline all_enabled (str ''a b c''))) = [str ''unicode_manipulation''] \<and>
   humanized (projr (fst (humanize offline all_enabled (str ''a b c'')))) = str ''a b c'' \<and>
   transformations_applied (projr (fst (humanize offline all_enabled (str ''a b c'')))) = []"
proof -
  have thr: "quality_threshold all_enabled = 85/100"
    by (simp add: all_enabled_def unicode_only_def)
  have steps: "snd (snd (run_steps offline all_enabled (str ''a b c''))) = [str ''unicode_manipulation'']"
    by (simp add: run_steps_def syntax_step_def semantic_step_def unicode_step_def
          offline_def all_enabled_def unicode_only_def replace_abc)
  from C2_rollback[OF humanize_offline, of "\<lparr> semantic_similarity = 0, readability_change = 0,
                                    original_readability = 8, modified_readability = 8,
                                    spaces_replaced = 2, space_replacement_rate = 100 \<rparr>"]
  show ?thesis
    by (simp add: thr steps humanize_offline)
qed

text \<open>
  C6, as the code has it. An intensity outside \<open>[0, 1]\<close> makes the constructor fail and no
  pipeline is returned; the quality threshold is not checked: with a valid intensity (and
  a parser that loads) the pipeline is built and stores the threshold it was given.
\<close>

theorem C6_construction:
  "(\<not> (0 \<le> intensity \<and> intensity \<le> 1) \<longrightarrow>
      HumanizationPipeline_init C intensity e_unicode e_syntax e_semantics formality threshold seed =
        Inl (case col_parser_error C of Some e \<Rightarrow> e | None \<Rightarrow> ValueError)) \<and>
   (0 \<le> intensity \<and> intensity \<le> 1 \<and> col_parser_error C = None \<longrightarrow>
      \<not> isl (HumanizationPipeline_init C intensity e_unicode e_syntax e_semantics formality
               threshold seed) \<and>
      quality_threshold (projr (HumanizationPipeline_init C intensity e_unicode e_syntax
               e_semantics formality threshold seed)) = threshold)"
  by (auto simp: HumanizationPipeline_init_def SpaceManipulator_init_def split: option.splits)

theorem C6_witness:
  "\<not> (0 \<le> (3/2::real) \<and> (3/2::real) \<le> 1) \<and>
   HumanizationPipeline_init offline (3/2) True True True (str ''formal'') (85/100) (Some 42) =
     Inl ValueError \<and>
   (0 \<le> (1/2::real) \<and> (1/2::real) \<le> 1 \<and> col_parser_error offline = None) \<and>
   quality_threshold (projr (HumanizationPipeline_init offline (1/2) True True True
       (str ''formal'') (85/100) (Some 42))) = 85/100"
  using C6_construction[of "3/2" offline True True True "str ''formal''" "85/100" "Some 42"]
        C6_construction[of "1/2" offline True True True "str ''formal''" "85/100" "Some 42"]
  by (simp add: offline_def)

text \<open>C6 as stated fails for the threshold: \<open>1.5\<close> is accepted and stored.\<close>

theorem C6_counterexample:
  "\<not> (0 \<le> (3/2::real) \<and> (3/2::real) \<le> 1) \<and>
   \<not> isl (HumanizationPipeline_init offline (1/2) True True True (str ''formal'') (3/2) (Some 42)) \<and>
   quality_threshold (projr (HumanizationPipeline_init offline (1/2) True True True
       (str ''formal'') (3/2) (Some 42))) = 3/2"
  by (simp add: HumanizationPipeline_init_def SpaceManipulator_init_def offline_def)

section \<open>Facts about splitting and joining\<close>

lemma split_ws_Nil: "split_ws [] = []"
  by (simp add: split_ws.simps)

lemma split_ws_space: "isspace c \<Longrightarrow> split_ws (c # s) = split_ws s"
  by (subst (1 2) split_ws.simps) simp



lemma split_ws_word:
  "dropWhile isspace s \<noteq> [] \<Longrightarrow>
   split_ws s = takeWhile (\<lambda>c. \<not> isspace c) (dropWhile isspace s) #
                split_ws (dropWhile (\<lambda>c. \<not> isspace c) (dropWhile isspace s))"
  by (subst split_ws.simps) (simp only: Let_def if_False)




lemma split_ws_Cons:
  "split_ws (c # s) =
     (if isspace c then split_ws s
      else takeWhile (\<lambda>c. \<not> isspace c) (c # s) # split_ws (dropWhile (\<lambda>c. \<not> isspace c) (c # s)))"
proof (cases "isspace c")
  case True
  then show ?thesis by (simp add: split_ws_space)
next
  case False
  then have "dropWhile isspace (c # s) = c # s" by simp
  with split_ws_word[of "c # s"] False show ?thesis by simp
qed

section \<open>Claims about the semantic replacer and the sentence balancing\<close>






lemma spaced_nonempty: "spaced s \<Longrightarrow> s \<noteq> []"
proof -
  assume "spaced s"
  then obtain ws where ws: "ws \<noteq> []" "\<forall>w \<in> set ws. token w" "s = join [32] ws"
    unfolding spaced_def by blast
  then obtain w ws' where c: "ws = w # ws'" by (cases ws) auto
  have "w \<noteq> []" using ws(2) c by (simp add: token_def)
  then show "s \<noteq> []"
    unfolding ws(3) c by (cases ws') simp_all
qed
















lemma split_once_first:
  assumes "sep \<notin> set before"
  shows "split_once sep (before @ [sep] @ after) = [before, after]"
proof -
  have ne: "\<And>x. x \<in> set before \<Longrightarrow> x \<noteq> sep"
    using assms by auto
  have "takeWhile (\<lambda>c. c \<noteq> sep) (before @ sep # after) = before"
    using ne by (simp add: takeWhile_append2)
  moreover have "dropWhile (\<lambda>c. c \<noteq> sep) (before @ sep # after) = sep # after"
    using ne by (simp add: dropWhile_append2)
  ultimately show ?thesis
    by (simp add: split_once_def)
qed

lemma vary_loop_split:
  assumes "sent = before @ [0x2C] @ after" "0x2C \<notin> set before" "length (split_ws sent) > 30"
  shows "fst (vary_loop L G (sent # rest) g) =
           (strip before @ str ''.'') # strip after # fst (vary_loop L G rest g)"
proof -
  have parts: "split_once 0x2C sent = [before, after]"
    unfolding assms(1) using assms(2) by (rule split_once_first)
  have comma: "0x2C \<in> set sent"
    by (simp add: assms(1))
  show ?thesis
    using assms(3) comma by (simp add: parts split_beta Let_def)
qed

lemma vary_loop_merge:
  assumes ok: "rng_ok G"
    and short: "length (split_ws sent) < 8" "length (split_ws next_sent) < 8"
  shows "\<exists>connector \<in> {str ''and'', str ''while'', str ''as''}. \<exists>g'.
           vary_loop L G (sent # next_sent # rest) g =
             ((rstrip_chars (str ''.'') sent @ str '' '' @ connector @ str '' '' @
               str_lower L next_sent) # fst (vary_loop L G rest g'),
              snd (vary_loop L G rest g'))"
proof -
  let ?cs = "[str ''and'', str ''while'', str ''as'']"
  have "fst (choice G g ?cs) \<in> set ?cs"
    by (rule choice_in_set[OF ok]) simp
  then have mem: "fst (choice G g ?cs) \<in> {str ''and'', str ''while'', str ''as''}"
    by simp
  have eq: "vary_loop L G (sent # next_sent # rest) g =
             ((rstrip_chars (str ''.'') sent @ str '' '' @ fst (choice G g ?cs) @ str '' '' @
               str_lower L next_sent) # fst (vary_loop L G rest (snd (choice G g ?cs))),
              snd (vary_loop L G rest (snd (choice G g ?cs))))"
    using short by (simp add: split_beta Let_def)
  show ?thesis
    using mem eq by blast
qed

lemma vary_loop_keep:
  assumes "\<not> (length (split_ws sent) > 30 \<and> 0x2C \<in> set sent)"
    and "\<not> (length (split_ws sent) < 8 \<and> rest \<noteq> [] \<and> length (split_ws (hd rest)) < 8)"
  shows "fst (vary_loop L G (sent # rest) g) = sent # fst (vary_loop L G rest g)"
  using assms by (cases rest) (auto simp: split_beta Let_def)

text \<open>
  C9, as the code has it. A sentence of more than 30 words with a comma is replaced by the
  stripped text before its first comma followed by a period, and the stripped text after
  it; two consecutive sentences of fewer than 8 words each are merged into the first
  without its trailing periods, a connector among \<open>and\<close>, \<open>while\<close>, \<open>as\<close>, and the whole
  second sentence in lower case; any other sentence is kept. In each case the loop goes on
  after the sentences it consumed.
\<close>

theorem C9_sentence_balancing:
  assumes "rng_ok G"
  shows "(\<forall>before after.
            sent = before @ [0x2C] @ after \<and> 0x2C \<notin> set before \<and> length (split_ws sent) > 30 \<longrightarrow>
            fst (vary_loop L G (sent # rest) g) =
              (strip before @ str ''.'') # strip after # fst (vary_loop L G rest g)) \<and>
         (length (split_ws sent) < 8 \<and> length (split_ws next_sent) < 8 \<longrightarrow>
            (\<exists>connector \<in> {str ''and'', str ''while'', str ''as''}. \<exists>g'.
               vary_loop L G (sent # next_sent # rest) g =
                 ((rstrip_chars (str ''.'') sent @ str '' '' @ connector @ str '' '' @
                   str_lower L next_sent) # fst (vary_loop L G rest g'),
                  snd (vary_loop L G rest g')))) \<and>
         (\<not> (length (split_ws sent) > 30 \<and> 0x2C \<in> set sent) \<and>
          \<not> (length (split_ws sent) < 8 \<and> rest \<noteq> [] \<and> length (split_ws (hd rest)) < 8) \<longrightarrow>
            fst (vary_loop L G (sent # rest) g) = sent # fst (vary_loop L G rest g))"
proof (intro conjI allI impI)
  fix before after
  assume "sent = before @ [0x2C] @ after \<and> 0x2C \<notin> set before \<and> length (split_ws sent) > 30"
  then have a: "sent = before @ [0x2C] @ after" and b: "0x2C \<notin> set before"
    and c: "length (split_ws sent) > 30"
    by blast+
  show "fst (vary_loop L G (sent # rest) g) =
              (strip before @ str ''.'') # strip after # fst (vary_loop L G rest g)"
    using a b c by (rule vary_loop_split)
next
  assume "length (split_ws sent) < 8 \<and> length (split_ws next_sent) < 8"
  then show "\<exists>connector \<in> {str ''and'', str ''while'', str ''as''}. \<exists>g'.
               vary_loop L G (sent # next_sent # rest) g =
                 ((rstrip_chars (str ''.'') sent @ str '' '' @ connector @ str '' '' @
                   str_lower L next_sent) # fst (vary_loop L G rest g'),
                  snd (vary_loop L G rest g'))"
    by (intro vary_loop_merge[OF assms]) simp_all
next
  assume "\<not> (length (split_ws sent) > 30 \<and> 0x2C \<in> set sent) \<and>
          \<not> (length (split_ws sent) < 8 \<and> rest \<noteq> [] \<and> length (split_ws (hd rest)) < 8)"
  then show "fst (vary_loop L G (sent # rest) g) = sent # fst (vary_loop L G rest g)"
    by (intro vary_loop_keep) simp_all
qed

lemma eval_merge:
  "vary_sentence_complexity ascii_case lcg 42 [str ''Hi.'', str ''We met Bob.''] =
     (([str ''Hi and we met bob.''], 1/2), 1250496027)"
  by (simp add: vary_sentence_complexity_def str_def split_ws_Cons split_ws_Nil isspace_def
        split_once_def choice_def lcg_def lcg_next_def rstrip_chars_def ascii_case_def
        ascii_lower_char_def Let_def)

text \<open>
  C9 as stated fails for the case of the second sentence: all of it is lower-cased, not
  only its first letter (\<open>Bob\<close> becomes \<open>bob\<close>).
\<close>

theorem C9_counterexample:
  "length (split_ws (str ''Hi.'')) < 8 \<and> length (split_ws (str ''We met Bob.'')) < 8 \<and>
   fst (fst (vary_sentence_complexity ascii_case lcg 42 [str ''Hi.'', str ''We met Bob.''])) =
     [str ''Hi and we met bob.''] \<and>
   str ''Hi and we met bob.'' \<noteq> str ''Hi and we met Bob.''"
  by (simp add: eval_merge) (simp add: str_def split_ws_Cons split_ws_Nil isspace_def)

lemma long_sentence_words:
  "length (split_ws (str ''a a a a a a a a a a a a a a a a a a a a a a a a a a a a a a a, b c'')) = 33"
  by (simp add: str_def split_ws_Cons split_ws_Nil isspace_def)

theorem C9_witness:
  "rng_ok lcg \<and> length (split_ws (str ''Hi.'')) < 8 \<and> length (split_ws (str ''We met Bob.'')) < 8 \<and>
   (\<exists>connector \<in> {str ''and'', str ''while'', str ''as''}. \<exists>g'.
      vary_loop ascii_case lcg [str ''Hi.'', str ''We met Bob.''] 42 =
        ([rstrip_chars (str ''.'') (str ''Hi.'') @ str '' '' @ connector @ str '' '' @
          str_lower ascii_case (str ''We met Bob.'')], g')) \<and>
   length (split_ws (str ''a a a a a a a a a a a a a a a a a a a a a a a a a a a a a a a, b c'')) > 30 \<and>
   fst (vary_loop ascii_case lcg [str ''a a a a a a a a a a a a a a a a a a a a a a a a a a a a a a a, b c''] 42) =
     [str ''a a a a a a a a a a a a a a a a a a a a a a a a a a a a a a a'' @ str ''.'', str ''b c'']"
proof -
  have short: "length (split_ws (str ''Hi.'')) < 8 \<and> length (split_ws (str ''We met Bob.'')) < 8"
    by (simp add: str_def split_ws_Cons split_ws_Nil isspace_def)
  from C9_sentence_balancing[OF lcg_ok, where sent="str ''Hi.''" and rest="[]" and L=ascii_case
          and g=42 and next_sent="str ''We met Bob.''"] short
  have merge: "\<exists>connector \<in> {str ''and'', str ''while'', str ''as''}. \<exists>g'.
               vary_loop ascii_case lcg (str ''Hi.'' # str ''We met Bob.'' # []) 42 =
                 ((rstrip_chars (str ''.'') (str ''Hi.'') @ str '' '' @ connector @ str '' '' @
                   str_lower ascii_case (str ''We met Bob.'')) # fst (vary_loop ascii_case lcg [] g'),
                  snd (vary_loop ascii_case lcg [] g'))"
    by blast
  have d: "str ''a a a a a a a a a a a a a a a a a a a a a a a a a a a a a a a, b c'' = str ''a a a a a a a a a a a a a a a a a a a a a a a a a a a a a a a'' @ [0x2C] @ str '' b c''"
    by (simp add: str_def)
  have n: "0x2C \<notin> set (str ''a a a a a a a a a a a a a a a a a a a a a a a a a a a a a a a'')"
    by (simp add: str_def)
  have l: "length (split_ws (str ''a a a a a a a a a a a a a a a a a a a a a a a a a a a a a a a, b c'')) > 30"
    by (simp add: long_sentence_words)
  from C9_sentence_balancing[OF lcg_ok, THEN conjunct1, rule_format, OF conjI[OF d conjI[OF n l]],
        where rest="[]" and L=ascii_case and g=42]
  have split: "fst (vary_loop ascii_case lcg [str ''a a a a a a a a a a a a a a a a a a a a a a a a a a a a a a a, b c''] 42) = [str ''a a a a a a a a a a a a a a a a a a a a a a a a a a a a a a a'' @ str ''.'', str ''b c'']"
    by (simp add: strip_def) (simp add: str_def isspace_def)
  show ?thesis
    using lcg_ok short merge l split by simp
qed
















end
